theory Spec2Isabelle
  imports Complex_Main
begin

section \<open>Python values used by the plotting module\<close>

text \<open>
  The exceptions that the modelled code can raise.  Every function that can raise returns
  a sum: \<open>Inl\<close> carries the exception, \<open>Inr\<close> the value.
\<close>

datatype py_error =
  IndexError | KeyError | TypeError | ValueError | ZeroDivisionError
  | AttributeError | AssertionError | FileExistsError | NotADirectoryError
  | PermissionError

text \<open>
  A numpy array: its \<open>shape\<close> tuple and, for a two-dimensional array, its cells row by
  row (\<open>rows a ! i ! j\<close> is \<open>a[i][j]\<close>).  The functions below read single cells only of
  two-dimensional arrays.
\<close>

record 'a ndarray =
  shape :: "nat list"
  rows :: "'a list list"

definition is_2d :: "'a ndarray \<Rightarrow> bool" where
  "is_2d a =
     (case shape a of
        [h, w] \<Rightarrow> length (rows a) = h \<and> list_all (\<lambda>r. length r = w) (rows a)
      | _ \<Rightarrow> False)"

definition size_of :: "'a ndarray \<Rightarrow> nat" where
  "size_of a = prod_list (shape a)"

text \<open>\<open>a.shape[n]\<close>: indexing the shape tuple raises IndexError beyond the rank.\<close>

definition shape_at :: "'a ndarray \<Rightarrow> nat \<Rightarrow> py_error + nat" where
  "shape_at a n = (if n < length (shape a) then Inr (shape a ! n) else Inl IndexError)"

text \<open>
  \<open>np.unique(a).tolist()\<close>: the sorted distinct elements of the flattened array.
\<close>

definition np_unique :: "int ndarray \<Rightarrow> int list" where
  "np_unique a = sort (remdups (concat (rows a)))"

text \<open>
  \<open>np.array(xss)\<close> of a list of equally long lists: an empty outer list gives the
  one-dimensional empty array, anything else a two-dimensional array.
\<close>

definition np_array :: "'a list list \<Rightarrow> 'a ndarray" where
  "np_array xss =
     \<lparr>shape = (case xss of [] \<Rightarrow> [0] | r # _ \<Rightarrow> [length xss, length r]), rows = xss\<rparr>"

text \<open>
  A dict comprehension \<open>{a: b for (a, b) in kvs}\<close>: the pairs are stored in order, a later
  pair replacing an earlier one with the same key.
\<close>

definition dict_of :: "('k \<times> 'v) list \<Rightarrow> ('k \<rightharpoonup> 'v)" where
  "dict_of kvs = foldl (\<lambda>d (a, b). d(a \<mapsto> b)) Map.empty kvs"

text \<open>\<open>str(n)\<close> of a Python int: decimal digits, with a minus sign when negative.\<close>

definition digit :: "nat \<Rightarrow> char" where
  "digit d = ''0123456789'' ! d"

function str_nat :: "nat \<Rightarrow> string" where
  "str_nat n = (if n < 10 then [digit n] else str_nat (n div 10) @ [digit (n mod 10)])"
  by pat_completeness auto
termination
  by (relation "measure id") auto

declare str_nat.simps [simp del]

definition str :: "int \<Rightarrow> string" where
  "str n = (if n < 0 then CHR ''-'' # str_nat (nat (- n)) else str_nat (nat n))"

section \<open>The class catalog and the tick labels\<close>

text \<open>
  \<open>CLASS_LIST\<close>, the global dictionary of class number : name pairs: its items in
  insertion order, and the lookup \<open>CLASS_LIST.get\<close>.
\<close>

definition CLASS_ITEMS :: "(int \<times> string) list" where
  "CLASS_ITEMS =
     [(0, ''brick''), (1, ''carpet''), (2, ''ceramic''), (3, ''fabric''), (4, ''foliage''),
      (5, ''food''), (6, ''glass''), (7, ''hair''), (8, ''leather''), (9, ''metal''),
      (10, ''mirror''), (11, ''other''), (12, ''painted''), (13, ''paper''),
      (14, ''plastic''), (15, ''polishedstone''), (16, ''skin''), (17, ''sky''),
      (18, ''stone''), (19, ''tile''), (20, ''wallpaper''), (21, ''water''), (22, ''wood'')]"

definition CLASS_LIST :: "int \<rightharpoonup> string" where
  "CLASS_LIST = map_of CLASS_ITEMS"

text \<open>
  \<open>get_class_names\<close> returns two kinds of value: for exactly one number the bare result of
  \<open>CLASS_LIST.get\<close> (a string, or None), otherwise the list of those results.  The
  \<open>print\<close> of the list writes to standard output only and is left out.
\<close>

datatype class_names = OneName "string option" | NameList "string option list"

definition get_class_names :: "int list \<Rightarrow> class_names" where
  "get_class_names class_numbers =
     (let class_names = map CLASS_LIST class_numbers
      in if length class_names = 1 then OneName (hd class_names) else NameList class_names)"

text \<open>The names in such a value, one per class number.\<close>

fun names_list :: "class_names \<Rightarrow> string option list" where
  "names_list (OneName n) = [n]"
| "names_list (NameList ns) = ns"

text \<open>
  What \<open>zip\<close> iterates over when handed the result of \<open>get_class_names\<close>: the elements
  of a list, the one-character strings of a string, and a TypeError for None.
\<close>

fun iter_names :: "class_names \<Rightarrow> py_error + string option list" where
  "iter_names (NameList ns) = Inr ns"
| "iter_names (OneName (Some s)) = Inr (map (\<lambda>c. Some [c]) s)"
| "iter_names (OneName None) = Inl TypeError"

text \<open>
  The loop of \<open>get_tick_labels\<close>: \<open>str(number) + ": " + name\<close> is appended for each pair;
  concatenating None to a string raises TypeError.
\<close>

fun tick_loop :: "(int \<times> string option) list \<Rightarrow> string list \<Rightarrow> py_error + string list" where
  "tick_loop [] tick_labels = Inr tick_labels"
| "tick_loop ((number, Some name) # ps) tick_labels =
     tick_loop ps (tick_labels @ [str number @ '': '' @ name])"
| "tick_loop ((number, None) # ps) tick_labels = Inl TypeError"

definition get_tick_labels :: "int list \<Rightarrow> py_error + string list" where
  "get_tick_labels class_numbers =
     (case iter_names (get_class_names class_numbers) of
        Inl e \<Rightarrow> Inl e
      | Inr class_names \<Rightarrow> tick_loop (zip class_numbers class_names) [])"

section \<open>Class remapping\<close>

text \<open>
  \<open>modify_class_map\<close>.  \<open>value_dict\<close> pairs the sorted distinct values with
  \<open>range(0, len(unique_values))\<close>.  The outer comprehension evaluates \<open>class_map.shape[0]\<close> once, the
  inner one \<open>class_map.shape[1]\<close> for every row, and \<open>value_dict.get\<close> for every cell; a
  cell of an array of more than two dimensions is itself an array, which is unhashable.
  \<open>value_dict.get\<close> returns None for a missing key, so the cells of the result are
  optional integers.
\<close>

definition value_dict :: "int ndarray \<Rightarrow> (int \<rightharpoonup> int)" where
  "value_dict class_map =
     (let unique_values = np_unique class_map;
          modified_values = map int [0..<length unique_values]
      in dict_of (zip unique_values modified_values))"

definition modify_class_map :: "int ndarray \<Rightarrow> py_error + int option ndarray" where
  "modify_class_map class_map =
     (case shape_at class_map 0 of
        Inl e \<Rightarrow> Inl e
      | Inr n0 \<Rightarrow>
          if n0 = 0 then Inr (np_array [])
          else (case shape_at class_map 1 of
                  Inl e \<Rightarrow> Inl e
                | Inr n1 \<Rightarrow>
                    if n1 > 0 \<and> length (shape class_map) > 2 then Inl TypeError
                    else Inr (np_array
                           (map (\<lambda>i. map (\<lambda>j. value_dict class_map (rows class_map ! i ! j))
                                      [0..<n1])
                              [0..<n0]))))"

text \<open>The set of class codes that occur in an array.\<close>

definition codes :: "int ndarray \<Rightarrow> int set" where
  "codes a = set (concat (rows a))"

section \<open>Colorbar ticks\<close>

text \<open>
  \<open>np.arange(start, stop, step)\<close>: the \<open>ceil((stop - start) / step)\<close> values
  \<open>start + i * step\<close>, all below \<open>stop\<close>.  Floats are modelled by real numbers; at the
  inputs evaluated below every intermediate value is a multiple of \<open>1/8\<close> of small
  magnitude, which binary floating point represents and computes exactly.
\<close>

definition np_arange :: "real \<Rightarrow> real \<Rightarrow> real \<Rightarrow> real list" where
  "np_arange start stop step =
     map (\<lambda>i. start + real i * step) [0..<nat \<lceil>(stop - start) / step\<rceil>]"

text \<open>
  The tick locations \<open>loc\<close> of \<open>plot_class_map\<close> (the same lines occur in \<open>plot_output\<close>
  and \<open>get_class_plot\<close>).  \<open>step_length\<close> is computed before the conditional expression,
  so an empty list of classes divides by zero.
\<close>

definition tick_loc :: "int list \<Rightarrow> py_error + real list" where
  "tick_loc unique_classes =
     (if length unique_classes = 0 then Inl ZeroDivisionError
      else let step_length = real_of_int (int (length unique_classes) - 1)
                               / real (length unique_classes)
           in Inr (if length unique_classes > 1
                   then np_arange (step_length / 2) (real (length unique_classes)) step_length
                   else [0]))"

section \<open>Deriving the class map from the network output\<close>

text \<open>
  A three-dimensional array of probabilities (classes, height, width):
  \<open>planes p ! c ! i ! j\<close> is \<open>p[c][i][j]\<close>.
\<close>

record 'a prob_array =
  dims :: "nat \<times> nat \<times> nat"
  planes :: "'a list list list"

text \<open>
  The raw network output is a dict whose key \<open>'prob'\<close> holds a batch of such arrays; the
  averaged output is one such array.
\<close>

datatype 'a network_output =
  NetDict "string \<rightharpoonup> 'a prob_array list"
  | NetArray "'a prob_array"

text \<open>The index of the first greatest element of the non-empty list \<open>x # xs\<close>.\<close>

fun argmax_from :: "'a::linorder list \<Rightarrow> nat \<Rightarrow> nat \<Rightarrow> 'a \<Rightarrow> nat" where
  "argmax_from [] i best_i best = best_i"
| "argmax_from (y # ys) i best_i best =
     (if best < y then argmax_from ys (Suc i) i y else argmax_from ys (Suc i) best_i best)"

definition argmax1 :: "'a::linorder \<Rightarrow> 'a list \<Rightarrow> nat" where
  "argmax1 x xs = argmax_from xs 1 0 x"

text \<open>
  \<open>p.argmax(axis=0)\<close> and \<open>p.max(axis=0)\<close>: a reduction over an axis of length zero
  raises ValueError.
\<close>

definition argmax_axis0 :: "'a::linorder prob_array \<Rightarrow> py_error + int ndarray" where
  "argmax_axis0 p =
     (case dims p of (c, h, w) \<Rightarrow>
        if c = 0 then Inl ValueError
        else Inr \<lparr>shape = [h, w],
                  rows = map (\<lambda>i. map (\<lambda>j. int (argmax1 (planes p ! 0 ! i ! j)
                                                   (map (\<lambda>k. planes p ! k ! i ! j) [1..<c])))
                                     [0..<w])
                             [0..<h]\<rparr>)"


text \<open>\<open>network_output['prob'][0]\<close>.\<close>

definition prob0 :: "(string \<rightharpoonup> 'a prob_array list) \<Rightarrow> py_error + 'a prob_array" where
  "prob0 d =
     (case d ''prob'' of
        None \<Rightarrow> Inl KeyError
      | Some batch \<Rightarrow> (case batch of [] \<Rightarrow> Inl IndexError | p # _ \<Rightarrow> Inr p))"

text \<open>
  The first statement of \<open>plot_class_map\<close> (and of \<open>plot_abs_map\<close>, \<open>get_class_plot\<close>):
  the class map of either form of network output.
\<close>

definition class_map_of :: "'a::linorder network_output \<Rightarrow> py_error + int ndarray" where
  "class_map_of network_output =
     (case network_output of
        NetDict d \<Rightarrow> (case prob0 d of Inl e \<Rightarrow> Inl e | Inr p \<Rightarrow> argmax_axis0 p)
      | NetArray p \<Rightarrow> argmax_axis0 p)"

section \<open>The report written by \<open>plot_output\<close>\<close>

text \<open>
  The part of the file system that \<open>plot_output\<close> touches: the directories that exist, the
  contents of the regular files, and \<open>refused\<close>, the error with which the operating system
  refuses \<open>os.makedirs\<close> of a path for a reason outside this state (PermissionError for a
  parent that cannot be written, for example).  Paths are compared as written.
\<close>

record filesystem =
  dirs :: "string set"
  files :: "string \<rightharpoonup> string"
  refused :: "string \<rightharpoonup> py_error"

text \<open>The parent components of a path: its prefixes that end before a separator.\<close>

definition ancestors :: "string \<Rightarrow> string list" where
  "ancestors p =
     map (\<lambda>i. take i p)
       (filter (\<lambda>i. p ! i = CHR ''/'' \<and> p ! (i - 1) \<noteq> CHR ''/'') [1..<length p])"

text \<open>
  \<open>os.makedirs(p)\<close> without \<open>exist_ok\<close>: NotADirectoryError when a parent component is a
  regular file, FileExistsError when the target exists, the operating system's own error
  when it refuses; in each of these cases nothing is created.  Otherwise the target and
  its missing parents become directories.
\<close>

definition os_makedirs :: "string \<Rightarrow> filesystem \<Rightarrow> py_error + filesystem" where
  "os_makedirs p fs =
     (if list_ex (\<lambda>a. files fs a \<noteq> None) (ancestors p) then Inl NotADirectoryError
      else if p \<in> dirs fs \<or> files fs p \<noteq> None then Inl FileExistsError
      else case refused fs p of
             Some err \<Rightarrow> Inl err
           | None \<Rightarrow> Inr (fs\<lparr>dirs := dirs fs \<union> set (ancestors p) \<union> {p}\<rparr>))"









section \<open>The demo application\<close>

text \<open>
  The parsed command line of \<open>runGUI_NCS.py\<close> and the calls the script makes.
  \<open>input_stream\<close> is the device number \<open>0\<close> or the given path.
\<close>

record args =
  model :: "string option"
  input :: string
  padding :: int

datatype input_stream = Device int | Path string

datatype call =
  SetModeGpu
  | BasicConfig
  | LogInfo string
  | VideoCapture input_stream
  | SegmentationApp input_stream "string option" int
  | Mainloop

text \<open>
  The body of the script after argument parsing.  \<open>isfile\<close> is \<open>os.path.isfile\<close> on the
  current file system.  The result is the calls made, in order, and the exception that
  ends the run, if any.  The \<open>assert\<close> is taken as executed (Python without \<open>-O\<close>).
\<close>

definition main :: "(string \<Rightarrow> bool) \<Rightarrow> args \<Rightarrow> call list \<times> py_error option" where
  "main isfile a =
     (let started = [SetModeGpu, BasicConfig];
          run = (\<lambda>input_stream.
                   (started @ [LogInfo ''Setting up camera'', VideoCapture input_stream,
                               SegmentationApp input_stream (model a) (padding a), Mainloop],
                    None))
      in if input a = ''cam'' then run (Device 0)
         else if isfile (input a) then run (Path (input a))
         else (started, Some AssertionError))"

section \<open>Dictionaries built from pairs\<close>

lemma foldl_upd_map_of:
  "foldl (\<lambda>d (a, b). d(a \<mapsto> b)) m kvs = m ++ map_of (rev kvs)"
proof (induction kvs arbitrary: m)
  case Nil
  show ?case by simp
next
  case (Cons kv kvs)
  let ?f = "\<lambda>(d :: 'a \<rightharpoonup> 'b) (a, b). d(a \<mapsto> b)"
  obtain a b where kv: "kv = (a, b)" by (cases kv)
  have step: "?f m kv = m(a \<mapsto> b)" using kv by simp
  have "foldl ?f m (kv # kvs) = foldl ?f (?f m kv) kvs" by (simp only: foldl_Cons)
  also have "\<dots> = foldl ?f (m(a \<mapsto> b)) kvs" by (simp only: step)
  also have "\<dots> = m(a \<mapsto> b) ++ map_of (rev kvs)" by (rule Cons.IH)
  also have "\<dots> = m ++ ([a \<mapsto> b] ++ map_of (rev kvs))"
    by (rule ext) (simp add: map_add_def split: option.splits)
  also have "\<dots> = m ++ map_of (rev (kv # kvs))" using kv by simp
  finally show ?case .
qed

lemma map_of_rev_distinct:
  "distinct (map fst kvs) \<Longrightarrow> map_of (rev kvs) = map_of kvs"
proof (induction kvs)
  case Nil
  then show ?case by simp
next
  case (Cons kv kvs)
  obtain a b where kv: "kv = (a, b)" by (cases kv)
  from Cons.prems kv have none: "map_of kvs a = None"
    by (simp add: map_of_eq_None_iff)
  from Cons have IH: "map_of (rev kvs) = map_of kvs" by simp
  have "[a \<mapsto> b] ++ map_of kvs = (map_of kvs)(a \<mapsto> b)"
    using none by (intro ext) (simp add: map_add_def split: option.splits)
  with IH kv show ?case by simp
qed

lemma dict_of_zip:
  assumes "distinct xs" "length xs = length ys"
  shows "dict_of (zip xs ys) = map_of (zip xs ys)"
proof -
  have "distinct (map fst (zip xs ys))" using assms by simp
  then show ?thesis
    by (simp add: dict_of_def foldl_upd_map_of map_of_rev_distinct)
qed

section \<open>Properties of the remapping\<close>

lemma np_unique_sorted: "sorted (np_unique a)"
  by (simp add: np_unique_def)

lemma np_unique_distinct: "distinct (np_unique a)"
  by (simp add: np_unique_def)

lemma np_unique_set: "set (np_unique a) = codes a"
  by (simp add: np_unique_def codes_def)

lemma np_unique_length: "length (np_unique a) = card (codes a)"
  by (simp add: np_unique_def codes_def length_remdups_card_conv)

lemma value_dict_nth:
  assumes "i < length (np_unique a)"
  shows "value_dict a (np_unique a ! i) = Some (int i)"
proof -
  let ?us = "np_unique a"
  have "map_of (zip ?us (map int [0..<length ?us])) (?us ! i) = Some (map int [0..<length ?us] ! i)"
    using assms by (intro map_of_zip_nth) (simp_all add: np_unique_distinct)
  then show ?thesis using assms
    by (simp add: value_dict_def dict_of_zip np_unique_distinct Let_def)
qed

lemma rows_comprehension:
  assumes "length rs = h" "list_all (\<lambda>r. length r = w) rs"
  shows "map (\<lambda>i. map (\<lambda>j. f (rs ! i ! j)) [0..<w]) [0..<h] = map (map f) rs"
proof (rule nth_equalityI)
  show "length (map (\<lambda>i. map (\<lambda>j. f (rs ! i ! j)) [0..<w]) [0..<h]) = length (map (map f) rs)"
    using assms by simp
next
  fix i assume "i < length (map (\<lambda>i. map (\<lambda>j. f (rs ! i ! j)) [0..<w]) [0..<h])"
  then have i: "i < h" by simp
  with assms have lw: "length (rs ! i) = w" by (simp add: list_all_length)
  have "map (\<lambda>j. f (rs ! i ! j)) [0..<length (rs ! i)] = map f (rs ! i)"
    by (rule nth_equalityI) simp_all
  with lw have "map (\<lambda>j. f (rs ! i ! j)) [0..<w] = map f (rs ! i)" by simp
  with i assms show "map (\<lambda>i. map (\<lambda>j. f (rs ! i ! j)) [0..<w]) [0..<h] ! i = map (map f) rs ! i"
    by simp
qed

lemma is_2d_D:
  assumes "is_2d a"
  obtains h w where "shape a = [h, w]" "length (rows a) = h"
    "list_all (\<lambda>r. length r = w) (rows a)"
proof (cases "shape a")
  case Nil
  with assms show ?thesis by (simp add: is_2d_def)
next
  case (Cons h t)
  note c1 = this
  show ?thesis
  proof (cases t)
    case Nil
    with assms c1 show ?thesis by (simp add: is_2d_def)
  next
    case (Cons w t')
    show ?thesis
    proof (cases t')
      case Nil
      with assms c1 Cons that show ?thesis by (simp add: is_2d_def)
    next
      case (Cons x t'')
      with assms c1 \<open>t = w # t'\<close> show ?thesis by (simp add: is_2d_def)
    qed
  qed
qed

lemma modify_class_map_is_2d:
  assumes "is_2d a"
  shows "modify_class_map a = Inr (np_array (map (map (value_dict a)) (rows a)))"
proof -
  from assms obtain h w where sh: "shape a = [h, w]"
    and len: "length (rows a) = h" and all: "list_all (\<lambda>r. length r = w) (rows a)"
    by (rule is_2d_D)
  have compr: "map (\<lambda>i. map (\<lambda>j. value_dict a (rows a ! i ! j)) [0..<w]) [0..<h]
      = map (map (value_dict a)) (rows a)"
    by (rule rows_comprehension [OF len all])
  show ?thesis
  proof (cases "h = 0")
    case True
    with len have "rows a = []" by simp
    with True sh show ?thesis by (simp add: modify_class_map_def shape_at_def)
  next
    case False
    with sh have "modify_class_map a
      = Inr (np_array (map (\<lambda>i. map (\<lambda>j. value_dict a (rows a ! i ! j)) [0..<w]) [0..<h]))"
      by (simp add: modify_class_map_def shape_at_def)
    with compr show ?thesis by simp
  qed
qed

lemma np_array_nonempty:
  assumes "is_2d a" "0 < size_of a"
  shows "np_array (map (map f) (rows a)) = \<lparr>shape = shape a, rows = map (map f) (rows a)\<rparr>"
proof -
  from assms(1) obtain h w where sh: "shape a = [h, w]"
    and len: "length (rows a) = h" and all: "list_all (\<lambda>r. length r = w) (rows a)"
    by (rule is_2d_D)
  from assms(2) sh have pos: "0 < h" by (simp add: size_of_def)
  with len obtain r rs where rr: "rows a = r # rs" by (cases "rows a") simp_all
  with all have "length r = w" by simp
  with rr len sh show ?thesis by (simp add: np_array_def)
qed

lemma modify_class_map_nonempty:
  assumes "is_2d a" "0 < size_of a"
  shows "modify_class_map a = Inr \<lparr>shape = shape a, rows = map (map (value_dict a)) (rows a)\<rparr>"
  using modify_class_map_is_2d [OF assms(1)] np_array_nonempty [OF assms] by simp

lemma codes_index:
  assumes "x \<in> codes a"
  obtains i where "i < card (codes a)" "np_unique a ! i = x"
proof -
  from assms have "x \<in> set (np_unique a)" by (simp add: np_unique_set)
  then obtain i where "i < length (np_unique a)" "np_unique a ! i = x"
    by (auto simp: in_set_conv_nth)
  with that show ?thesis by (simp add: np_unique_length)
qed

lemma np_unique_nth_less:
  assumes "i < j" "j < length (np_unique a)"
  shows "np_unique a ! i < np_unique a ! j"
proof -
  have "sorted_wrt (<) (np_unique a)"
    by (simp add: strict_sorted_iff np_unique_sorted np_unique_distinct)
  then show ?thesis using assms by (rule sorted_wrt_nth_less)
qed

lemma value_dict_rank:
  assumes "x \<in> codes a"
  obtains i where "i < card (codes a)" "np_unique a ! i = x" "value_dict a x = Some (int i)"
proof -
  from assms obtain i where i: "i < card (codes a)" "np_unique a ! i = x"
    by (rule codes_index)
  from i(1) have "value_dict a (np_unique a ! i) = Some (int i)"
    by (intro value_dict_nth) (simp add: np_unique_length)
  with i that show ?thesis by simp
qed

lemma value_dict_image:
  "value_dict a ` codes a = Some ` {0..<int (card (codes a))}"
proof (intro set_eqI iffI)
  fix v assume "v \<in> value_dict a ` codes a"
  then obtain x where x: "x \<in> codes a" "v = value_dict a x" by (rule imageE)
  from x(1) obtain i where i: "i < card (codes a)" "value_dict a x = Some (int i)"
    by (rule value_dict_rank)
  from i(1) have "int i \<in> {0..<int (card (codes a))}" by simp
  with x(2) i(2) show "v \<in> Some ` {0..<int (card (codes a))}" by simp
next
  fix v assume "v \<in> Some ` {0..<int (card (codes a))}"
  then obtain r where r: "v = Some r" "0 \<le> r" "r < int (card (codes a))" by auto
  then have n: "nat r < length (np_unique a)" by (simp add: np_unique_length)
  then have "np_unique a ! nat r \<in> codes a"
    using np_unique_set [of a] nth_mem by blast
  moreover from n r have "value_dict a (np_unique a ! nat r) = v"
    by (simp add: value_dict_nth)
  ultimately show "v \<in> value_dict a ` codes a" by (rule rev_image_eqI [OF _ sym])
qed

lemma value_dict_mono:
  assumes "x \<in> codes a" "y \<in> codes a" "x < y"
  shows "the (value_dict a x) < the (value_dict a y)"
proof -
  from assms(1) obtain i where i: "i < card (codes a)" "np_unique a ! i = x"
    "value_dict a x = Some (int i)" by (rule value_dict_rank)
  from assms(2) obtain j where j: "j < card (codes a)" "np_unique a ! j = y"
    "value_dict a y = Some (int j)" by (rule value_dict_rank)
  have "i < j"
  proof (rule ccontr)
    assume "\<not> i < j"
    then consider "i = j" | "j < i" by linarith
    then show False
    proof cases
      case 1
      with i j assms(3) show False by simp
    next
      case 2
      then have "np_unique a ! j < np_unique a ! i"
        using i(1) by (intro np_unique_nth_less) (simp_all add: np_unique_length)
      with i j assms(3) show False by simp
    qed
  qed
  with i j show ?thesis by simp
qed

lemma cells_in_codes: "r \<in> set (rows a) \<Longrightarrow> x \<in> set r \<Longrightarrow> x \<in> codes a"
  unfolding codes_def by (simp only: set_concat) blast

lemma map_rows_cong:
  assumes "\<And>x. x \<in> codes a \<Longrightarrow> f x = g x"
  shows "map (map f) (rows a) = map (map g) (rows a)"
proof (rule map_cong [OF refl])
  fix r assume r: "r \<in> set (rows a)"
  show "map f r = map g r"
  proof (rule map_cong [OF refl])
    fix x assume "x \<in> set r"
    with r have "x \<in> codes a" by (rule cells_in_codes)
    then show "f x = g x" by (rule assms)
  qed
qed

lemma codes_map_rows: "set (concat (map (map f) (rows a))) = f ` codes a"
proof -
  have "concat (map (map f) (rows a)) = map f (concat (rows a))"
    by (simp add: map_concat)
  then show ?thesis by (simp add: codes_def)
qed

lemma np_unique_dense:
  assumes "codes a = {0..<int k}"
  shows "np_unique a = map int [0..<k]"
proof (rule sorted_distinct_set_unique)
  show "sorted (np_unique a)" by (rule np_unique_sorted)
  show "distinct (np_unique a)" by (rule np_unique_distinct)
  show "sorted (map int [0..<k])" by (simp add: sorted_map)
  show "distinct (map int [0..<k])" by (simp add: distinct_map)
  show "set (np_unique a) = set (map int [0..<k])"
    using assms by (simp add: np_unique_set image_int_atLeastLessThan)
qed

lemma value_dict_dense:
  assumes "codes a = {0..<int k}" "x \<in> codes a"
  shows "value_dict a x = Some x"
proof -
  from assms have x: "0 \<le> x" "x < int k" by simp_all
  have us: "np_unique a = map int [0..<k]" using assms(1) by (rule np_unique_dense)
  from x have n: "nat x < length (np_unique a)" by (simp add: us)
  then have "value_dict a (np_unique a ! nat x) = Some (int (nat x))" by (rule value_dict_nth)
  moreover from x n have "np_unique a ! nat x = x" by (simp add: us)
  ultimately show ?thesis using x by simp
qed

lemma rows_np_array: "rows (np_array xss) = xss"
  by (simp add: np_array_def)

lemma concat_empty_rows:
  "list_all (\<lambda>r. r = []) rs \<Longrightarrow> concat (map (map f) rs) = []"
  by (induction rs) simp_all

lemma empty_rows:
  assumes "is_2d a" "size_of a = 0"
  shows "concat (map (map f) (rows a)) = []"
proof -
  from assms(1) obtain h w where sh: "shape a = [h, w]" and len: "length (rows a) = h"
    and all: "list_all (\<lambda>r. length r = w) (rows a)" by (rule is_2d_D)
  from assms(2) sh have "h = 0 \<or> w = 0" by (simp add: size_of_def)
  then have "list_all (\<lambda>r. r = []) (rows a)"
  proof
    assume "h = 0"
    with len have "rows a = []" by simp
    then show ?thesis by simp
  next
    assume "w = 0"
    with all show ?thesis by simp
  qed
  then show ?thesis by (rule concat_empty_rows)
qed

section \<open>Properties of the tick labels\<close>

lemma CLASS_LIST_None: "CLASS_LIST c = None \<longleftrightarrow> c < 0 \<or> 22 < c"
proof -
  have "CLASS_LIST c = None \<longleftrightarrow> c \<notin> set (map fst CLASS_ITEMS)"
    by (simp add: CLASS_LIST_def map_of_eq_None_iff)
  also have "map fst CLASS_ITEMS = [0..22]"
    by (simp add: CLASS_ITEMS_def upto_rec1)
  also have "c \<notin> set [0..22] \<longleftrightarrow> c < 0 \<or> 22 < c" by auto
  finally show ?thesis .
qed

lemma tick_loop_None:
  "CLASS_LIST c = None \<Longrightarrow> c \<in> set cs \<Longrightarrow>
     tick_loop (zip cs (map CLASS_LIST cs)) acc = Inl TypeError"
proof (induction cs arbitrary: acc)
  case Nil
  then show ?case by simp
next
  case (Cons d cs)
  show ?case
  proof (cases "CLASS_LIST d")
    case None
    then show ?thesis by simp
  next
    case (Some name)
    with Cons.prems have "c \<in> set cs" by auto
    with Cons.IH Cons.prems(1) Some show ?thesis by simp
  qed
qed

lemma tick_loop_Some:
  "\<forall>c\<in>set cs. CLASS_LIST c \<noteq> None \<Longrightarrow>
     tick_loop (zip cs (map CLASS_LIST cs)) acc
       = Inr (acc @ map (\<lambda>c. str c @ '': '' @ the (CLASS_LIST c)) cs)"
proof (induction cs arbitrary: acc)
  case Nil
  then show ?case by simp
next
  case (Cons d cs)
  then obtain name where "CLASS_LIST d = Some name" by auto
  with Cons show ?case by simp
qed

lemma get_tick_labels_many:
  assumes "length cs \<noteq> 1" "\<forall>c\<in>set cs. CLASS_LIST c \<noteq> None"
  shows "get_tick_labels cs = Inr (map (\<lambda>c. str c @ '': '' @ the (CLASS_LIST c)) cs)"
  using assms by (simp add: get_tick_labels_def get_class_names_def tick_loop_Some)

lemma names_list_get_class_names: "names_list (get_class_names cs) = map CLASS_LIST cs"
proof (cases "length cs = 1")
  case True
  then obtain d where "cs = [d]" by (cases cs) simp_all
  then show ?thesis by (simp add: get_class_names_def)
next
  case False
  then show ?thesis by (simp add: get_class_names_def)
qed

section \<open>Correctness of the arg-max\<close>

lemma argmax_from_correct:
  assumes "bi < length ps" "ps ! bi = b" "\<forall>j<length ps. ps ! j \<le> b" "\<forall>j<bi. ps ! j < b"
    "i = length ps"
  shows "argmax_from ys i bi b < length (ps @ ys)
         \<and> (\<forall>j<length (ps @ ys). (ps @ ys) ! j \<le> (ps @ ys) ! argmax_from ys i bi b)
         \<and> (\<forall>j<argmax_from ys i bi b. (ps @ ys) ! j < (ps @ ys) ! argmax_from ys i bi b)"
  using assms
proof (induction ys arbitrary: ps bi b i)
  case Nil
  then show ?case by simp
next
  case (Cons y ys)
  show ?case
  proof (cases "b < y")
    case True
    have "argmax_from ys (Suc i) i y < length ((ps @ [y]) @ ys)
         \<and> (\<forall>j<length ((ps @ [y]) @ ys). ((ps @ [y]) @ ys) ! j \<le> ((ps @ [y]) @ ys) ! argmax_from ys (Suc i) i y)
         \<and> (\<forall>j<argmax_from ys (Suc i) i y. ((ps @ [y]) @ ys) ! j < ((ps @ [y]) @ ys) ! argmax_from ys (Suc i) i y)"
    proof (rule Cons.IH)
      show "i < length (ps @ [y])" using Cons.prems(5) by simp
      show "(ps @ [y]) ! i = y" using Cons.prems(5) by simp
      show "\<forall>j<length (ps @ [y]). (ps @ [y]) ! j \<le> y"
        using Cons.prems(3) True by (auto simp: nth_append less_Suc_eq)
      show "\<forall>j<i. (ps @ [y]) ! j < y"
        using Cons.prems(3,5) True by (auto simp: nth_append)
      show "Suc i = length (ps @ [y])" using Cons.prems(5) by simp
    qed
    with True show ?thesis by simp
  next
    case False
    have "argmax_from ys (Suc i) bi b < length ((ps @ [y]) @ ys)
         \<and> (\<forall>j<length ((ps @ [y]) @ ys). ((ps @ [y]) @ ys) ! j \<le> ((ps @ [y]) @ ys) ! argmax_from ys (Suc i) bi b)
         \<and> (\<forall>j<argmax_from ys (Suc i) bi b. ((ps @ [y]) @ ys) ! j < ((ps @ [y]) @ ys) ! argmax_from ys (Suc i) bi b)"
    proof (rule Cons.IH)
      show "bi < length (ps @ [y])" using Cons.prems(1) by simp
      show "(ps @ [y]) ! bi = b" using Cons.prems(1,2) by (simp add: nth_append)
      show "\<forall>j<length (ps @ [y]). (ps @ [y]) ! j \<le> b"
        using Cons.prems(3) False by (auto simp: nth_append less_Suc_eq)
      show "\<forall>j<bi. (ps @ [y]) ! j < b"
        using Cons.prems(1,4) by (auto simp: nth_append)
      show "Suc i = length (ps @ [y])" using Cons.prems(5) by simp
    qed
    with False show ?thesis by simp
  qed
qed

lemma argmax1_correct:
  "argmax1 x xs < length (x # xs)
   \<and> (\<forall>j<length (x # xs). (x # xs) ! j \<le> (x # xs) ! argmax1 x xs)
   \<and> (\<forall>j<argmax1 x xs. (x # xs) ! j < (x # xs) ! argmax1 x xs)"
  using argmax_from_correct [of 0 "[x]" x 1 xs] by (simp add: argmax1_def)

lemma argmax_axis0_cell:
  assumes "dims P = (c, h, w)" "0 < c" "i < h" "j < w"
  shows "\<exists>cm n. argmax_axis0 P = Inr cm \<and> shape cm = [h, w] \<and> length (rows cm) = h
           \<and> length (rows cm ! i) = w \<and> rows cm ! i ! j = int n \<and> n < c
           \<and> (\<forall>k<c. planes P ! k ! i ! j \<le> planes P ! n ! i ! j)
           \<and> (\<forall>k<n. planes P ! k ! i ! j < planes P ! n ! i ! j)"
proof -
  let ?cell = "\<lambda>k. planes P ! k ! i ! j"
  let ?x = "?cell 0" and ?xs = "map ?cell [1..<c]"
  let ?n = "argmax1 ?x ?xs"
  let ?cm = "\<lparr>shape = [h, w],
              rows = map (\<lambda>i. map (\<lambda>j. int (argmax1 (planes P ! 0 ! i ! j)
                                               (map (\<lambda>k. planes P ! k ! i ! j) [1..<c])))
                                 [0..<w])
                         [0..<h]\<rparr>"
  have all: "?x # ?xs = map ?cell [0..<c]"
    using assms(2) by (simp add: upt_conv_Cons)
  have len: "length (?x # ?xs) = c" by (simp only: all) simp
  have nth: "(?x # ?xs) ! k = ?cell k" if "k < c" for k
    using that by (simp only: all) simp
  note am = argmax1_correct [of ?x ?xs]
  from am len have n: "?n < c" by simp
  have ge: "\<forall>k<c. ?cell k \<le> ?cell ?n"
  proof (intro allI impI)
    fix k assume k: "k < c"
    with am len have "(?x # ?xs) ! k \<le> (?x # ?xs) ! ?n" by simp
    with k n show "?cell k \<le> ?cell ?n" by (simp only: nth)
  qed
  have lt: "\<forall>k<?n. ?cell k < ?cell ?n"
  proof (intro allI impI)
    fix k assume k: "k < ?n"
    with am have "(?x # ?xs) ! k < (?x # ?xs) ! ?n" by simp
    moreover from k n have "k < c" by simp
    ultimately show "?cell k < ?cell ?n" using n by (simp only: nth)
  qed
  have res: "argmax_axis0 P = Inr ?cm"
    using assms(1,2) by (simp add: argmax_axis0_def)
  have sh: "shape ?cm = [h, w]" by simp
  have l1: "length (rows ?cm) = h" by simp
  have l2: "length (rows ?cm ! i) = w" using assms(3) by simp
  have cell: "rows ?cm ! i ! j = int ?n" using assms(3,4) by simp
  show ?thesis
    by (intro exI [of _ ?cm] exI [of _ ?n] conjI) (rule res sh l1 l2 cell n ge lt)+
qed

section \<open>Properties of the report\<close>














lemma demo_makedirs_parent_file:
  "os_makedirs ''out/plots'' \<lparr>dirs = {}, files = [''out'' \<mapsto> ''x''], refused = Map.empty\<rparr>
     = Inl NotADirectoryError"
  by (simp add: os_makedirs_def ancestors_def upt_rec)


section \<open>The claims about the remapping\<close>

text \<open>
  Claim C1.  For every non-empty two-dimensional integer array with \<open>k\<close> distinct values,
  \<open>modify_class_map\<close> returns an array of the same shape in which every cell \<open>x\<close> is replaced
  by its rank \<open>f x\<close>: the ranks that occur are exactly the integers of \<open>[0, k)\<close>, equal codes
  have equal ranks, distinct codes have distinct ranks, and a smaller code has a smaller
  rank.
\<close>

theorem modify_class_map_ranks:
  assumes "is_2d a" and "0 < size_of a"
  shows "\<exists>b f. modify_class_map a = Inr b
           \<and> shape b = shape a
           \<and> rows b = map (map (\<lambda>x. Some (f x))) (rows a)
           \<and> set (concat (rows b)) = Some ` {0..<int (card (codes a))}
           \<and> inj_on f (codes a)
           \<and> (\<forall>x\<in>codes a. \<forall>y\<in>codes a. x < y \<longrightarrow> f x < f y)"
proof -
  let ?f = "\<lambda>x. the (value_dict a x)"
  let ?b = "\<lparr>shape = shape a, rows = map (map (value_dict a)) (rows a)\<rparr>"
  have some: "value_dict a x = Some (?f x)" if "x \<in> codes a" for x
  proof -
    from that obtain i where "value_dict a x = Some (int i)" by (rule value_dict_rank)
    then show ?thesis by simp
  qed
  have res: "modify_class_map a = Inr ?b"
    using assms by (rule modify_class_map_nonempty)
  have sh: "shape ?b = shape a" by simp
  have "map (map (value_dict a)) (rows a) = map (map (\<lambda>x. Some (?f x))) (rows a)"
    using some by (rule map_rows_cong)
  then have rws: "rows ?b = map (map (\<lambda>x. Some (?f x))) (rows a)" by simp
  have "set (concat (map (map (value_dict a)) (rows a))) = Some ` {0..<int (card (codes a))}"
    by (simp only: codes_map_rows value_dict_image)
  then have cover: "set (concat (rows ?b)) = Some ` {0..<int (card (codes a))}" by simp
  have mono: "?f x < ?f y" if "x \<in> codes a" "y \<in> codes a" "x < y" for x y
    using that by (rule value_dict_mono)
  have inj: "inj_on ?f (codes a)"
  proof (rule inj_onI)
    fix x y assume xy: "x \<in> codes a" "y \<in> codes a" "?f x = ?f y"
    show "x = y"
    proof (rule ccontr)
      assume "x \<noteq> y"
      then consider "x < y" | "y < x" by linarith
      then show False
      proof cases
        case 1
        with xy(1,2) have "?f x < ?f y" by (rule mono)
        with xy(3) show False by simp
      next
        case 2
        with xy(2,1) have "?f y < ?f x" by (rule mono)
        with xy(3) show False by simp
      qed
    qed
  qed
  from mono have ord: "\<forall>x\<in>codes a. \<forall>y\<in>codes a. x < y \<longrightarrow> ?f x < ?f y" by blast
  show ?thesis
    apply (rule exI [of _ ?b])
    apply (rule exI [of _ ?f])
    apply (intro conjI)
         apply (rule res)
        apply (rule sh)
       apply (rule rws)
      apply (rule cover)
     apply (rule inj)
    apply (rule ord)
    done
qed

theorem modify_class_map_ranks_witness:
  "is_2d \<lparr>shape = [2, 2], rows = [[0, 9], [9, 21 :: int]]\<rparr>
   \<and> 0 < size_of \<lparr>shape = [2, 2], rows = [[0, 9], [9, 21 :: int]]\<rparr>
   \<and> (\<exists>b f. modify_class_map \<lparr>shape = [2, 2], rows = [[0, 9], [9, 21]]\<rparr> = Inr b
           \<and> shape b = [2, 2]
           \<and> rows b = map (map (\<lambda>x. Some (f x))) [[0, 9], [9, 21]]
           \<and> set (concat (rows b))
               = Some ` {0..<int (card (codes \<lparr>shape = [2, 2], rows = [[0, 9], [9, 21]]\<rparr>))}
           \<and> inj_on f (codes \<lparr>shape = [2, 2], rows = [[0, 9], [9, 21]]\<rparr>)
           \<and> (\<forall>x\<in>codes \<lparr>shape = [2, 2], rows = [[0, 9], [9, 21]]\<rparr>.
                \<forall>y\<in>codes \<lparr>shape = [2, 2], rows = [[0, 9], [9, 21]]\<rparr>. x < y \<longrightarrow> f x < f y))"
proof -
  let ?a = "\<lparr>shape = [2, 2], rows = [[0, 9], [9, 21 :: int]]\<rparr>"
  have h1: "is_2d ?a" by (simp add: is_2d_def)
  have h2: "0 < size_of ?a" by (simp add: size_of_def)
  from modify_class_map_ranks [OF h1 h2] have "\<exists>b f. modify_class_map ?a = Inr b
           \<and> shape b = [2, 2]
           \<and> rows b = map (map (\<lambda>x. Some (f x))) [[0, 9], [9, 21]]
           \<and> set (concat (rows b)) = Some ` {0..<int (card (codes ?a))}
           \<and> inj_on f (codes ?a)
           \<and> (\<forall>x\<in>codes ?a. \<forall>y\<in>codes ?a. x < y \<longrightarrow> f x < f y)"
    by (simp only: ndarray.simps)
  with h1 h2 show ?thesis by (intro conjI)
qed

text \<open>
  Claim C5.  Remapping is idempotent: a non-empty two-dimensional integer array whose
  values are exactly the integers of \<open>[0, k)\<close> is returned with the same shape and the same
  cells.
\<close>

theorem modify_class_map_idempotent:
  assumes "is_2d a" and "0 < size_of a" and "codes a = {0..<int k}"
  shows "modify_class_map a = Inr \<lparr>shape = shape a, rows = map (map Some) (rows a)\<rparr>"
proof -
  have "map (map (value_dict a)) (rows a) = map (map Some) (rows a)"
    using assms(3) by (intro map_rows_cong value_dict_dense)
  with modify_class_map_nonempty [OF assms(1,2)] show ?thesis by simp
qed

theorem modify_class_map_idempotent_witness:
  "is_2d \<lparr>shape = [2, 2], rows = [[0, 1], [1, 2 :: int]]\<rparr>
   \<and> 0 < size_of \<lparr>shape = [2, 2], rows = [[0, 1], [1, 2 :: int]]\<rparr>
   \<and> codes \<lparr>shape = [2, 2], rows = [[0, 1], [1, 2]]\<rparr> = {0..<int 3}
   \<and> modify_class_map \<lparr>shape = [2, 2], rows = [[0, 1], [1, 2]]\<rparr>
       = Inr \<lparr>shape = [2, 2], rows = [[Some 0, Some 1], [Some 1, Some 2]]\<rparr>"
proof -
  let ?a = "\<lparr>shape = [2, 2], rows = [[0, 1], [1, 2 :: int]]\<rparr>"
  have h1: "is_2d ?a" by (simp add: is_2d_def)
  have h2: "0 < size_of ?a" by (simp add: size_of_def)
  have h3: "codes ?a = {0..<int 3}" by (auto simp: codes_def)
  from modify_class_map_idempotent [OF h1 h2 h3] h1 h2 h3 show ?thesis by simp
qed

text \<open>
  Claim C7, as amended.  \<open>modify_class_map\<close> has no error condition on two-dimensional
  integer arrays: it returns an array for every one of them, and for an array with no
  elements the array returned has no elements either.
\<close>

theorem modify_class_map_total:
  assumes "is_2d a"
  shows "\<exists>b. modify_class_map a = Inr b \<and> (size_of a = 0 \<longrightarrow> concat (rows b) = [])"
proof (intro exI conjI impI)
  show "modify_class_map a = Inr (np_array (map (map (value_dict a)) (rows a)))"
    using assms by (rule modify_class_map_is_2d)
next
  assume "size_of a = 0"
  with assms have "concat (map (map (value_dict a)) (rows a)) = []" by (rule empty_rows)
  then show "concat (rows (np_array (map (map (value_dict a)) (rows a)))) = []"
    by (simp only: rows_np_array)
qed

theorem modify_class_map_total_witness:
  "is_2d \<lparr>shape = [2, 0], rows = [[], [] :: int list]\<rparr>
   \<and> size_of \<lparr>shape = [2, 0], rows = [[], [] :: int list]\<rparr> = 0
   \<and> (\<exists>b. modify_class_map \<lparr>shape = [2, 0], rows = [[], []]\<rparr> = Inr b \<and> concat (rows b) = [])"
proof -
  let ?a = "\<lparr>shape = [2, 0], rows = [[], [] :: int list]\<rparr>"
  have h1: "is_2d ?a" by (simp add: is_2d_def)
  have h2: "size_of ?a = 0" by (simp add: size_of_def)
  from modify_class_map_total [OF h1] h2
  have "\<exists>b. modify_class_map ?a = Inr b \<and> concat (rows b) = []" by simp
  with h1 h2 show ?thesis by (intro conjI)
qed

text \<open>
  The claim as stated fails: an array of shape \<open>(0, 3)\<close> has no elements, and
  \<open>modify_class_map\<close> returns the empty one-dimensional array for it without raising.
\<close>

theorem modify_class_map_empty_no_error:
  "is_2d \<lparr>shape = [0, 3], rows = ([] :: int list list)\<rparr>
   \<and> size_of \<lparr>shape = [0, 3], rows = ([] :: int list list)\<rparr> = 0
   \<and> modify_class_map \<lparr>shape = [0, 3], rows = []\<rparr> = Inr \<lparr>shape = [0], rows = []\<rparr>"
  by (simp add: is_2d_def size_of_def modify_class_map_def shape_at_def np_array_def)

text \<open>
  Claim C9.  For the class map \<open>[[0, 9], [9, 21]]\<close> the sorted distinct codes are
  \<open>[0, 9, 21]\<close>, \<open>modify_class_map\<close> returns \<open>[[0, 1], [1, 2]]\<close>, and \<open>get_tick_labels\<close> of
  \<open>[0, 9, 21]\<close> returns the labels \<open>0: brick\<close>, \<open>9: metal\<close> and \<open>21: water\<close>.
\<close>

theorem end_to_end_scenario:
  "np_unique \<lparr>shape = [2, 2], rows = [[0, 9], [9, 21]]\<rparr> = [0, 9, 21]
   \<and> modify_class_map \<lparr>shape = [2, 2], rows = [[0, 9], [9, 21]]\<rparr>
       = Inr \<lparr>shape = [2, 2], rows = [[Some 0, Some 1], [Some 1, Some 2]]\<rparr>
   \<and> get_tick_labels [0, 9, 21] = Inr [''0: brick'', ''9: metal'', ''21: water'']"
proof (intro conjI)
  show "np_unique \<lparr>shape = [2, 2], rows = [[0, 9], [9, 21]]\<rparr> = [0, 9, 21]"
    by (simp add: np_unique_def)
  show "modify_class_map \<lparr>shape = [2, 2], rows = [[0, 9], [9, 21]]\<rparr>
       = Inr \<lparr>shape = [2, 2], rows = [[Some 0, Some 1], [Some 1, Some 2]]\<rparr>"
    by (simp add: modify_class_map_def value_dict_def np_unique_def dict_of_def shape_at_def
        np_array_def upt_rec)
  show "get_tick_labels [0, 9, 21] = Inr [''0: brick'', ''9: metal'', ''21: water'']"
    by (simp add: get_tick_labels_def get_class_names_def CLASS_LIST_def CLASS_ITEMS_def
        str_def str_nat.simps digit_def)
qed

section \<open>The claims about the tick labels\<close>

text \<open>
  Claim C3 says that every sequence of catalog codes gets one label \<open><c>: <name of c>\<close>
  per code.  For a sequence of one code \<open>get_class_names\<close> returns the bare name, and
  \<open>zip\<close> in \<open>get_tick_labels\<close> then pairs the code with the first character of the name:
  the label for \<open>[9]\<close> is \<open>9: m\<close>, not \<open>9: metal\<close>.
\<close>

theorem get_tick_labels_single_code:
  "CLASS_LIST 9 = Some ''metal'' \<and> get_tick_labels [9] = Inr [''9: m'']"
  by (simp add: get_tick_labels_def get_class_names_def CLASS_LIST_def CLASS_ITEMS_def
      str_def str_nat.simps digit_def)

text \<open>
  Claim C6, as amended.  For a class code outside \<open>0..22\<close>, \<open>get_class_names\<close> does not
  fail and yields None as the name of that code, at each of its positions;
  \<open>get_tick_labels\<close> raises TypeError for every sequence that contains such a code.
\<close>

theorem unknown_code_lookup:
  assumes "c < 0 \<or> 22 < c" and "c \<in> set cs"
  shows "(\<forall>i<length cs. cs ! i = c \<longrightarrow> names_list (get_class_names cs) ! i = None)
         \<and> get_tick_labels cs = Inl TypeError"
proof (intro conjI allI impI)
  fix i assume "i < length cs" "cs ! i = c"
  with assms(1) show "names_list (get_class_names cs) ! i = None"
    by (simp add: names_list_get_class_names CLASS_LIST_None)
next
  from assms(1) have none: "CLASS_LIST c = None" by (simp add: CLASS_LIST_None)
  show "get_tick_labels cs = Inl TypeError"
  proof (cases "length cs = 1")
    case True
    then obtain d where "cs = [d]" by (cases cs) simp_all
    with assms(2) have "cs = [c]" by simp
    with none show ?thesis by (simp add: get_tick_labels_def get_class_names_def)
  next
    case False
    with none assms(2) show ?thesis
      by (simp add: get_tick_labels_def get_class_names_def tick_loop_None)
  qed
qed

theorem unknown_code_lookup_witness:
  "((23 :: int) < 0 \<or> 22 < (23 :: int)) \<and> 23 \<in> set [0, 23 :: int]
   \<and> names_list (get_class_names [0, 23]) ! 1 = None
   \<and> get_tick_labels [0, 23] = Inl TypeError"
proof -
  have h1: "(23 :: int) < 0 \<or> 22 < (23 :: int)" by simp
  have h2: "23 \<in> set [0, 23 :: int]" by simp
  from unknown_code_lookup [OF h1 h2] h1 h2 show ?thesis by simp
qed

text \<open>
  The claim as stated fails: for the codes \<open>[0, 23]\<close> the lookup of \<open>23\<close> gives None, and
  \<open>get_tick_labels\<close> raises TypeError when it concatenates None to the label.
\<close>

theorem get_tick_labels_unknown_raises:
  "CLASS_LIST 23 = None \<and> get_tick_labels [0, 23] = Inl TypeError"
  by (simp add: get_tick_labels_def get_class_names_def CLASS_LIST_def CLASS_ITEMS_def)

section \<open>The claims about the colorbar ticks and the class map\<close>

text \<open>
  Claim C2 says that the tick positions are exactly the \<open>k\<close> values \<open>(i + 0.5) * (k-1)/k\<close>
  for \<open>i\<close> in \<open>0..k-1\<close>.  For one class the code does give the single position \<open>0\<close>.  For
  four classes \<open>np.arange(0.375, 4, 0.75)\<close> stops at \<open>len(unique_classes) = 4\<close> and not
  at the last value \<open>3\<close> of the remapped class map, and gives five positions.
\<close>

theorem tick_loc_four_classes:
  "tick_loc [0, 1, 2, 3] = Inr [3 / 8, 9 / 8, 15 / 8, 21 / 8, 27 / 8] \<and> tick_loc [5] = Inr [0]"
  by (simp add: tick_loc_def np_arange_def upt_rec)

text \<open>
  Claim C4.  For every three-dimensional probability array \<open>P\<close> of shape \<open>(c, h, w)\<close>, the
  class map derived from the dict \<open>{'prob': [P]}\<close> and the one derived from the array \<open>P\<close>
  itself are the same.  Without classes both raise ValueError.  Otherwise the class map
  has shape \<open>(h, w)\<close> and each of its cells holds the index of a greatest probability over
  the class axis at that pixel, the first such index.
\<close>

theorem class_map_of_forms_agree:
  assumes "dims P = (c, h, w)"
  shows "class_map_of (NetDict [''prob'' \<mapsto> [P]]) = class_map_of (NetArray P)
   \<and> (c = 0 \<longrightarrow> class_map_of (NetArray P) = Inl ValueError)
   \<and> (0 < c \<longrightarrow>
        (\<exists>cm. class_map_of (NetArray P) = Inr cm \<and> shape cm = [h, w] \<and> length (rows cm) = h
           \<and> (\<forall>i<h. length (rows cm ! i) = w
                \<and> (\<forall>j<w. \<exists>n<c. rows cm ! i ! j = int n
                      \<and> (\<forall>k<c. planes P ! k ! i ! j \<le> planes P ! n ! i ! j)
                      \<and> (\<forall>k<n. planes P ! k ! i ! j < planes P ! n ! i ! j)))))"
proof (intro conjI impI)
  show "class_map_of (NetDict [''prob'' \<mapsto> [P]]) = class_map_of (NetArray P)"
    by (simp add: class_map_of_def prob0_def)
next
  assume "c = 0"
  with assms show "class_map_of (NetArray P) = Inl ValueError"
    by (simp add: class_map_of_def argmax_axis0_def)
next
  assume c: "0 < c"
  have cmo: "class_map_of (NetArray P) = argmax_axis0 P" by (simp add: class_map_of_def)
  from assms c obtain cm where cm: "argmax_axis0 P = Inr cm"
    by (simp add: argmax_axis0_def)
  have sh: "shape cm = [h, w]" and len: "length (rows cm) = h"
    using assms c cm by (auto simp: argmax_axis0_def)
  have cells: "\<forall>i<h. length (rows cm ! i) = w
                \<and> (\<forall>j<w. \<exists>n<c. rows cm ! i ! j = int n
                      \<and> (\<forall>k<c. planes P ! k ! i ! j \<le> planes P ! n ! i ! j)
                      \<and> (\<forall>k<n. planes P ! k ! i ! j < planes P ! n ! i ! j))"
  proof (intro allI impI conjI)
    fix i assume i: "i < h"
    from assms c cm i show "length (rows cm ! i) = w" by (auto simp: argmax_axis0_def)
  next
    fix i j assume i: "i < h" and j: "j < w"
    from argmax_axis0_cell [OF assms c i j] obtain cm' n where
      r: "argmax_axis0 P = Inr cm'" "rows cm' ! i ! j = int n" "n < c"
         "\<forall>k<c. planes P ! k ! i ! j \<le> planes P ! n ! i ! j"
         "\<forall>k<n. planes P ! k ! i ! j < planes P ! n ! i ! j"
      by (elim exE conjE)
    from r(1) cm have "cm' = cm" by simp
    with r show "\<exists>n<c. rows cm ! i ! j = int n
                      \<and> (\<forall>k<c. planes P ! k ! i ! j \<le> planes P ! n ! i ! j)
                      \<and> (\<forall>k<n. planes P ! k ! i ! j < planes P ! n ! i ! j)"
      by (intro exI [of _ n] conjI) simp_all
  qed
  from cmo cm have res: "class_map_of (NetArray P) = Inr cm" by simp
  show "\<exists>cm. class_map_of (NetArray P) = Inr cm \<and> shape cm = [h, w] \<and> length (rows cm) = h
           \<and> (\<forall>i<h. length (rows cm ! i) = w
                \<and> (\<forall>j<w. \<exists>n<c. rows cm ! i ! j = int n
                      \<and> (\<forall>k<c. planes P ! k ! i ! j \<le> planes P ! n ! i ! j)
                      \<and> (\<forall>k<n. planes P ! k ! i ! j < planes P ! n ! i ! j)))"
    by (intro exI [of _ cm] conjI) (rule res sh len cells)+
qed

theorem class_map_of_forms_agree_witness:
  "dims \<lparr>dims = (2, 1, 2), planes = [[[1 / 4, 3 / 4]], [[3 / 4, 1 / 4 :: real]]]\<rparr> = (2, 1, 2)
   \<and> class_map_of
        (NetDict [''prob'' \<mapsto> [\<lparr>dims = (2, 1, 2), planes = [[[1 / 4, 3 / 4]], [[3 / 4, 1 / 4 :: real]]]\<rparr>]])
       = Inr \<lparr>shape = [1, 2], rows = [[1, 0]]\<rparr>
   \<and> (\<exists>cm. class_map_of
              (NetArray \<lparr>dims = (2, 1, 2), planes = [[[1 / 4, 3 / 4]], [[3 / 4, 1 / 4 :: real]]]\<rparr>)
             = Inr cm
         \<and> (\<exists>n<2. rows cm ! 0 ! 1 = int n
               \<and> (\<forall>k<2. [[[1 / 4, 3 / 4]], [[3 / 4, 1 / 4 :: real]]] ! k ! 0 ! 1
                          \<le> [[[1 / 4, 3 / 4]], [[3 / 4, 1 / 4]]] ! n ! 0 ! 1)))
   \<and> dims \<lparr>dims = (0, 1, 2), planes = ([] :: real list list list)\<rparr> = (0, 1, 2)
   \<and> class_map_of (NetDict [''prob'' \<mapsto> [\<lparr>dims = (0, 1, 2), planes = ([] :: real list list list)\<rparr>]])
       = Inl ValueError"
proof -
  let ?P = "\<lparr>dims = (2, 1, 2), planes = [[[1 / 4, 3 / 4]], [[3 / 4, 1 / 4 :: real]]]\<rparr>"
  let ?Z = "\<lparr>dims = (0, 1, 2), planes = ([] :: real list list list)\<rparr>"
  have hP: "dims ?P = (2, 1, 2)" by simp
  have hZ: "dims ?Z = (0, 1, 2)" by simp
  note tP = class_map_of_forms_agree [OF hP]
  note tZ = class_map_of_forms_agree [OF hZ]
  have arr: "class_map_of (NetArray ?P) = Inr \<lparr>shape = [1, 2], rows = [[1, 0]]\<rparr>"
    by (simp add: class_map_of_def argmax_axis0_def argmax1_def upt_rec)
  from tP [THEN conjunct1] arr
  have a: "class_map_of (NetDict [''prob'' \<mapsto> [?P]]) = Inr \<lparr>shape = [1, 2], rows = [[1, 0]]\<rparr>"
    by simp
  have pos: "(0 :: nat) < 2" by simp
  from tP [THEN conjunct2, THEN conjunct2, THEN mp, OF pos]
  obtain cm where cm: "class_map_of (NetArray ?P) = Inr cm"
    and cells: "\<forall>i<1. length (rows cm ! i) = 2
                \<and> (\<forall>j<2. \<exists>n<2. rows cm ! i ! j = int n
                      \<and> (\<forall>k<2. planes ?P ! k ! i ! j \<le> planes ?P ! n ! i ! j)
                      \<and> (\<forall>k<n. planes ?P ! k ! i ! j < planes ?P ! n ! i ! j))"
    by (elim exE conjE)
  from cells have "\<exists>n<2. rows cm ! 0 ! 1 = int n
                      \<and> (\<forall>k<2. planes ?P ! k ! 0 ! 1 \<le> planes ?P ! n ! 0 ! 1)
                      \<and> (\<forall>k<n. planes ?P ! k ! 0 ! 1 < planes ?P ! n ! 0 ! 1)"
    by simp
  then obtain n where n: "n < 2" "rows cm ! 0 ! 1 = int n"
    "\<forall>k<2. planes ?P ! k ! 0 ! 1 \<le> planes ?P ! n ! 0 ! 1"
    by (elim exE conjE)
  from n have inner: "\<exists>n<2. rows cm ! 0 ! 1 = int n
               \<and> (\<forall>k<2. [[[1 / 4, 3 / 4]], [[3 / 4, 1 / 4 :: real]]] ! k ! 0 ! 1
                          \<le> [[[1 / 4, 3 / 4]], [[3 / 4, 1 / 4]]] ! n ! 0 ! 1)"
    by (intro exI [of _ n] conjI) simp_all
  from cm inner have b: "\<exists>cm. class_map_of (NetArray ?P) = Inr cm
         \<and> (\<exists>n<2. rows cm ! 0 ! 1 = int n
               \<and> (\<forall>k<2. [[[1 / 4, 3 / 4]], [[3 / 4, 1 / 4 :: real]]] ! k ! 0 ! 1
                          \<le> [[[1 / 4, 3 / 4]], [[3 / 4, 1 / 4]]] ! n ! 0 ! 1))"
    by (intro exI [of _ cm] conjI)
  from tZ [THEN conjunct2, THEN conjunct1] have "class_map_of (NetArray ?Z) = Inl ValueError"
    by simp
  with tZ [THEN conjunct1]
  have z: "class_map_of (NetDict [''prob'' \<mapsto> [?Z]]) = Inl ValueError" by simp
  show ?thesis by (rule conjI [OF hP conjI [OF a conjI [OF b conjI [OF hZ z]]]])
qed

section \<open>The claim about the report without an image\<close>




section \<open>The claim about the demo application\<close>

text \<open>
  Claim C8.  When \<open>--input\<close> is not \<open>cam\<close> and names no existing file, the script ends with
  an AssertionError and has made no \<open>VideoCapture\<close> call; when it is \<open>cam\<close>, the script
  runs on and the only video capture it opens is device \<open>0\<close>.
\<close>

theorem main_input_check:
  "(input a \<noteq> ''cam'' \<and> \<not> isfile (input a) \<longrightarrow>
      snd (main isfile a) = Some AssertionError
      \<and> (\<forall>s. VideoCapture s \<notin> set (fst (main isfile a))))
   \<and> (input a = ''cam'' \<longrightarrow>
      snd (main isfile a) = None
      \<and> (\<forall>s. VideoCapture s \<in> set (fst (main isfile a)) \<longleftrightarrow> s = Device 0))"
  by (auto simp: main_def)

theorem main_input_check_witness:
  "(input \<lparr>model = None, input = ''clip.mp4'', padding = 0\<rparr> \<noteq> ''cam''
      \<and> \<not> (\<lambda>p. False) (input \<lparr>model = None, input = ''clip.mp4'', padding = 0\<rparr>))
   \<and> snd (main (\<lambda>p. False) \<lparr>model = None, input = ''clip.mp4'', padding = 0\<rparr>)
       = Some AssertionError
   \<and> (\<forall>s. VideoCapture s
          \<notin> set (fst (main (\<lambda>p. False) \<lparr>model = None, input = ''clip.mp4'', padding = 0\<rparr>)))
   \<and> input \<lparr>model = None, input = ''cam'', padding = 0\<rparr> = ''cam''
   \<and> snd (main (\<lambda>p. False) \<lparr>model = None, input = ''cam'', padding = 0\<rparr>) = None
   \<and> (\<forall>s. VideoCapture s
          \<in> set (fst (main (\<lambda>p. False) \<lparr>model = None, input = ''cam'', padding = 0\<rparr>))
        \<longleftrightarrow> s = Device 0)"
proof -
  let ?f = "\<lambda>p :: string. False"
  let ?a = "\<lparr>model = None, input = ''clip.mp4'', padding = 0\<rparr>"
  let ?c = "\<lparr>model = None, input = ''cam'', padding = 0\<rparr>"
  have h1: "input ?a \<noteq> ''cam'' \<and> \<not> ?f (input ?a)" by simp
  have h2: "input ?c = ''cam''" by simp
  from main_input_check [of ?a ?f] h1
  have r1: "snd (main ?f ?a) = Some AssertionError
            \<and> (\<forall>s. VideoCapture s \<notin> set (fst (main ?f ?a)))" by blast
  from main_input_check [of ?c ?f] h2
  have r2: "snd (main ?f ?c) = None
            \<and> (\<forall>s. VideoCapture s \<in> set (fst (main ?f ?c)) \<longleftrightarrow> s = Device 0)" by blast
  from h1 h2 r1 r2 show ?thesis by (intro conjI) (simp_all only: simp_thms)
qed

end
